theory Spec2Isabelle
  imports Complex_Main "HOL-Library.Monad_Syntax"
begin

section \<open>The Scalar class as a store of objects\<close>

text \<open>
  A Python \<open>Scalar\<close> object has three attributes: \<open>val\<close>, \<open>grad\<close> and \<open>backward\<close>.
  Objects are shared by reference (a closure keeps references to \<open>self\<close>, \<open>other\<close> and
  \<open>result\<close>), so the objects live in a store: a list of objects, the address of an
  object being its index. The attribute \<open>backward\<close> holds one of three callables:
  the \<open>lambda: None\<close> of \<open>__init__\<close>, the closure made by \<open>__add__\<close> or the closure
  made by \<open>__mul__\<close>; a closure is stored with the three references it captures.
  The arithmetic of the values is the arithmetic of the type parameter \<open>'a\<close>.
\<close>

type_synonym addr = nat

datatype closure =
    Noop
  | AddBackward addr addr addr
  | MulBackward addr addr addr

record 'a scalar =
  val :: 'a
  grad :: 'a
  backward_fn :: closure

type_synonym 'a heap = "'a scalar list"

definition get_val :: "'a heap \<Rightarrow> addr \<Rightarrow> 'a" where
  "get_val h a = val (h ! a)"

definition get_grad :: "'a heap \<Rightarrow> addr \<Rightarrow> 'a" where
  "get_grad h a = grad (h ! a)"

definition set_grad :: "'a heap \<Rightarrow> addr \<Rightarrow> 'a \<Rightarrow> 'a heap" where
  "set_grad h a g = h[a := (h ! a)\<lparr>grad := g\<rparr>]"

definition set_val :: "'a heap \<Rightarrow> addr \<Rightarrow> 'a \<Rightarrow> 'a heap" where
  "set_val h a v = h[a := (h ! a)\<lparr>val := v\<rparr>]"

definition set_backward :: "'a heap \<Rightarrow> addr \<Rightarrow> closure \<Rightarrow> 'a heap" where
  "set_backward h a c = h[a := (h ! a)\<lparr>backward_fn := c\<rparr>]"

text \<open>\<open>Scalar(val)\<close>: a new object with \<open>grad = 0.\<close> and \<open>backward = lambda: None\<close>.\<close>

definition Scalar :: "'a::zero heap \<Rightarrow> 'a \<Rightarrow> 'a heap \<times> addr" where
  "Scalar h v = (h @ [\<lparr>val = v, grad = 0, backward_fn = Noop\<rparr>], length h)"

text \<open>
  \<open>__add__\<close> and \<open>__mul__\<close>: a new object \<open>result\<close> whose \<open>backward\<close> is the closure over
  \<open>self\<close>, \<open>other\<close> and \<open>result\<close>. A reference always designates an object in Python;
  the model returns \<open>None\<close> for an address that is not allocated.
\<close>

definition add :: "'a::{zero,plus} heap \<Rightarrow> addr \<Rightarrow> addr \<Rightarrow> ('a heap \<times> addr) option" where
  "add h self other =
     (if self < length h \<and> other < length h then
        (let (h', result) = Scalar h (get_val h self + get_val h other)
         in Some (set_backward h' result (AddBackward self other result), result))
      else None)"

definition mul :: "'a::{zero,times} heap \<Rightarrow> addr \<Rightarrow> addr \<Rightarrow> ('a heap \<times> addr) option" where
  "mul h self other =
     (if self < length h \<and> other < length h then
        (let (h', result) = Scalar h (get_val h self * get_val h other)
         in Some (set_backward h' result (MulBackward self other result), result))
      else None)"

text \<open>
  \<open>n.backward()\<close> calls whatever the attribute holds. The closures read and write the
  attributes of the captured objects at the time they run, statement by statement:
  \<open>self.grad += result.grad; other.grad += result.grad; self.backward(); other.backward()\<close>
  and, for \<open>__mul__\<close>, \<open>self.grad += other.val * result.grad;
  other.grad += self.val * result.grad\<close> followed by the same two calls. The recursion
  need not end on an arbitrary store, so the result is optional. The bound that the
  interpreter puts on the depth of the recursion is not part of the model.
\<close>

partial_function (option) backward :: "'a::{plus,times} heap \<Rightarrow> addr \<Rightarrow> 'a heap option" where
  "backward h n =
     (if n < length h then
        (case backward_fn (h ! n) of
           Noop \<Rightarrow> Some h
         | AddBackward self other result \<Rightarrow>
             (if self < length h \<and> other < length h \<and> result < length h then
                (let h1 = set_grad h self (get_grad h self + get_grad h result);
                     h2 = set_grad h1 other (get_grad h1 other + get_grad h1 result)
                 in Option.bind (backward h2 self) (\<lambda>h3. backward h3 other))
              else None)
         | MulBackward self other result \<Rightarrow>
             (if self < length h \<and> other < length h \<and> result < length h then
                (let h1 = set_grad h self (get_grad h self + get_val h other * get_grad h result);
                     h2 = set_grad h1 other (get_grad h1 other + get_val h1 self * get_grad h1 result)
                 in Option.bind (backward h2 self) (\<lambda>h3. backward h3 other))
              else None))
      else None)"

declare backward.simps [code]


text \<open>Several calls of \<open>backward()\<close>, one after the other, on nodes of one graph.\<close>

fun backward_many :: "'a::{plus,times} heap \<Rightarrow> addr list \<Rightarrow> 'a heap option" where
  "backward_many h [] = Some h"
| "backward_many h (n # ns) = Option.bind (backward h n) (\<lambda>h'. backward_many h' ns)"

subsection \<open>The execution of a backward pass, with its events\<close>





subsection \<open>The helpers of the training loop\<close>

datatype error = ZeroDivisionError | IndexError | Unallocated

text \<open>
  A list comprehension \<open>[f(i) for i in range(n)]\<close> whose body allocates objects:
  the store is threaded through the elements in order, and the first exception ends it.
\<close>

fun comprehension ::
  "('a heap \<Rightarrow> nat \<Rightarrow> error + 'a heap \<times> addr) \<Rightarrow> 'a heap \<Rightarrow> nat list \<Rightarrow> error + 'a heap \<times> addr list" where
  "comprehension f h [] = Inr (h, [])"
| "comprehension f h (i # is) =
     (case f h i of
        Inl e \<Rightarrow> Inl e
      | Inr (h1, a) \<Rightarrow>
          (case comprehension f h1 is of
             Inl e \<Rightarrow> Inl e
           | Inr (h2, as) \<Rightarrow> Inr (h2, a # as)))"

definition subscript :: "addr list \<Rightarrow> nat \<Rightarrow> error + addr" where
  "subscript xs i = (if i < length xs then Inr (xs ! i) else Inl IndexError)"

definition add_e :: "'a::{zero,plus} heap \<Rightarrow> addr \<Rightarrow> addr \<Rightarrow> error + 'a heap \<times> addr" where
  "add_e h a b = (case add h a b of None \<Rightarrow> Inl Unallocated | Some r \<Rightarrow> Inr r)"

definition mul_e :: "'a::{zero,times} heap \<Rightarrow> addr \<Rightarrow> addr \<Rightarrow> error + 'a heap \<times> addr" where
  "mul_e h a b = (case mul h a b of None \<Rightarrow> Inl Unallocated | Some r \<Rightarrow> Inr r)"

text \<open>\<open>forward(X, w)\<close>: \<open>[w * X[i] for i in range(len(X))]\<close>.\<close>

definition forward :: "'a::{zero,times} heap \<Rightarrow> addr list \<Rightarrow> addr \<Rightarrow> error + 'a heap \<times> addr list" where
  "forward h X w =
     comprehension
       (\<lambda>h i. case subscript X i of Inl e \<Rightarrow> Inl e | Inr x \<Rightarrow> mul_e h w x)
       h [0..<length X]"



section \<open>Well-formed graphs, paths and derivatives\<close>

text \<open>
  In a store made by \<open>Scalar(...)\<close>, \<open>__add__\<close> and \<open>__mul__\<close> the closure of a node refers
  to the node itself as \<open>result\<close> and to two older nodes as operands, so the graph is
  acyclic.
\<close>

definition node_ok :: "'a heap \<Rightarrow> addr \<Rightarrow> bool" where
  "node_ok h i =
     (case backward_fn (h ! i) of
        Noop \<Rightarrow> True
      | AddBackward s t r \<Rightarrow> s < i \<and> t < i \<and> r = i
      | MulBackward s t r \<Rightarrow> s < i \<and> t < i \<and> r = i)"

definition wf_heap :: "'a heap \<Rightarrow> bool" where
  "wf_heap h = list_all (node_ok h) [0..<length h]"

text \<open>What a backward pass never writes: the values and the closures.\<close>

definition shape :: "'a heap \<Rightarrow> ('a \<times> closure) list" where
  "shape h = map (\<lambda>x. (val x, backward_fn x)) h"

text \<open>
  The products of the local derivatives along each path of operands from node \<open>i\<close> down to
  node \<open>n\<close>: 1 for both operands of an addition, the value of the other operand for a
  multiplication. Their number is the number of paths, their sum the derivative of \<open>i\<close>
  with respect to \<open>n\<close> by the chain rule.
\<close>

function path_weights :: "'a::{one,times} heap \<Rightarrow> addr \<Rightarrow> addr \<Rightarrow> 'a list" where
  "path_weights h i n =
     (if i = n then [1]
      else if i < length h then
        (case backward_fn (h ! i) of
           Noop \<Rightarrow> []
         | AddBackward s t r \<Rightarrow>
             (if s < i \<and> t < i then path_weights h s n @ path_weights h t n else [])
         | MulBackward s t r \<Rightarrow>
             (if s < i \<and> t < i then
                map (\<lambda>w. get_val h t * w) (path_weights h s n) @
                map (\<lambda>w. get_val h s * w) (path_weights h t n)
              else []))
      else [])"
  by pat_completeness auto
termination
  by (relation "measure (\<lambda>(h, i, n). i)") auto

definition paths :: "'a::{one,times} heap \<Rightarrow> addr \<Rightarrow> addr \<Rightarrow> nat" where
  "paths h i n = length (path_weights h i n)"

definition deriv :: "'a::comm_semiring_1 heap \<Rightarrow> addr \<Rightarrow> addr \<Rightarrow> 'a" where
  "deriv h i n = sum_list (path_weights h i n)"

declare path_weights.simps [simp del]









text \<open>
  The value of node \<open>i\<close> as a function of the value \<open>x\<close> of node \<open>n\<close>, every other
  \<open>Scalar(...)\<close> keeping its value.
\<close>

function eval_at :: "'a::{plus,times} heap \<Rightarrow> addr \<Rightarrow> 'a \<Rightarrow> addr \<Rightarrow> 'a" where
  "eval_at h n x i =
     (if i = n then x
      else
        (case backward_fn (h ! i) of
           Noop \<Rightarrow> get_val h i
         | AddBackward s t r \<Rightarrow>
             (if s < i \<and> t < i then eval_at h n x s + eval_at h n x t else get_val h i)
         | MulBackward s t r \<Rightarrow>
             (if s < i \<and> t < i then eval_at h n x s * eval_at h n x t else get_val h i)))"
  by pat_completeness auto
termination
  by (relation "measure (\<lambda>(h, n, x, i). i)") auto

declare eval_at.simps [simp del]

text \<open>The value of every result is the sum or the product of the values of its operands.\<close>

definition node_consistent :: "'a::{plus,times} heap \<Rightarrow> addr \<Rightarrow> bool" where
  "node_consistent h i =
     (case backward_fn (h ! i) of
        Noop \<Rightarrow> True
      | AddBackward s t r \<Rightarrow> get_val h i = get_val h s + get_val h t
      | MulBackward s t r \<Rightarrow> get_val h i = get_val h s * get_val h t)"

definition consistent :: "'a::{plus,times} heap \<Rightarrow> bool" where
  "consistent h = list_all (node_consistent h) [0..<length h]"

text \<open>The stores that the constructor, the two operators and assignments to \<open>grad\<close> make.\<close>

inductive built :: "'a::{zero,plus,times} heap \<Rightarrow> bool" where
  built_empty: "built []"
| built_Scalar: "built h \<Longrightarrow> built (fst (Scalar h v))"
| built_add: "built h \<Longrightarrow> add h a b = Some (h', r) \<Longrightarrow> built h'"
| built_mul: "built h \<Longrightarrow> mul h a b = Some (h', r) \<Longrightarrow> built h'"
| built_set_grad: "built h \<Longrightarrow> built (set_grad h a g)"





section \<open>The notebook's examples\<close>

text \<open>
  \<open>x = Scalar(4.); y = ( x * x * x ) + x + x; x.grad = 0.; y.grad = 1.; y.backward(); x.grad\<close>
\<close>

definition cubic_plus_2x :: "real heap \<Rightarrow> real option" where
  "cubic_plus_2x h0 =
     (let (h1, x) = Scalar h0 4 in
      do {
        (h2, xx) \<leftarrow> mul h1 x x;
        (h3, xxx) \<leftarrow> mul h2 xx x;
        (h4, s) \<leftarrow> add h3 xxx x;
        (h5, y) \<leftarrow> add h4 s x;
        h6 \<leftarrow> backward (set_grad (set_grad h5 x 0) y 1) y;
        Some (get_grad h6 x)
      })"

text \<open>\<open>x = Scalar(4.); y = (x * x) * x\<close> under the same protocol.\<close>

definition cubic :: "real heap \<Rightarrow> real option" where
  "cubic h0 =
     (let (h1, x) = Scalar h0 4 in
      do {
        (h2, xx) \<leftarrow> mul h1 x x;
        (h3, y) \<leftarrow> mul h2 xx x;
        h4 \<leftarrow> backward (set_grad (set_grad h3 x 0) y 1) y;
        Some (get_grad h4 x)
      })"

text \<open>\<open>x = Scalar(5.); y = x + x; x.grad = 0.; y.grad = 1.; y.backward(); x.grad\<close>\<close>

definition double_x :: "real heap \<Rightarrow> real option" where
  "double_x h0 =
     (let (h1, x) = Scalar h0 5 in
      do {
        (h2, y) \<leftarrow> add h1 x x;
        h3 \<leftarrow> backward (set_grad (set_grad h2 x 0) y 1) y;
        Some (get_grad h3 x)
      })"





text \<open>The store of \<open>x = Scalar(4.); y = (x * x) * x\<close>, seeded: \<open>x\<close> is node 0 and \<open>y\<close> node 2.\<close>

definition cubic_graph :: "real heap" where
  "cubic_graph =
     (case (let (h1, x) = Scalar [] 4 in
            do {
              (h2, xx) \<leftarrow> mul h1 x x;
              (h3, y) \<leftarrow> mul h2 xx x;
              Some (set_grad (set_grad h3 x 0) y 1)
            }) of
        Some h \<Rightarrow> h
      | None \<Rightarrow> [])"







section \<open>Properties of the store\<close>

lemma wf_heap_iff: "wf_heap h \<longleftrightarrow> (\<forall>i<length h. node_ok h i)"
  by (auto simp: wf_heap_def list_all_iff)

lemma shape_length: "shape h' = shape h \<Longrightarrow> length h' = length h"
  unfolding shape_def by (rule map_eq_imp_length_eq)

lemma shape_nth:
  assumes "shape h' = shape h" "i < length h"
  shows "val (h' ! i) = val (h ! i)" "backward_fn (h' ! i) = backward_fn (h ! i)"
proof -
  have l: "i < length h'" using assms shape_length by metis
  have "shape h' ! i = shape h ! i" using assms by simp
  then have "(val (h' ! i), backward_fn (h' ! i)) = (val (h ! i), backward_fn (h ! i))"
    using l assms(2) by (simp add: shape_def)
  then show "val (h' ! i) = val (h ! i)" "backward_fn (h' ! i) = backward_fn (h ! i)" by simp_all
qed

lemma shape_set_grad [simp]: "shape (set_grad h a g) = shape h"
proof (cases "a < length h")
  case True
  then have "(map (\<lambda>x. (val x, backward_fn x)) h)[a := (val (h ! a), backward_fn (h ! a))]
      = map (\<lambda>x. (val x, backward_fn x)) h"
    by (simp add: list_update_same_conv)
  then show ?thesis by (simp add: shape_def set_grad_def map_update)
next
  case False
  then show ?thesis by (simp add: shape_def set_grad_def list_update_beyond)
qed

lemma length_set_grad [simp]: "length (set_grad h a g) = length h"
  by (simp add: set_grad_def)

lemma grad_set_grad:
  "a < length h \<Longrightarrow> grad (set_grad h a g ! i) = (if i = a then g else grad (h ! i))"
  by (simp add: set_grad_def nth_list_update)

lemma wf_heap_shape:
  assumes "shape h' = shape h"
  shows "wf_heap h' = wf_heap h"
proof -
  have "node_ok h' i = node_ok h i" if "i < length h" for i
    using shape_nth(2)[OF assms that] by (simp add: node_ok_def)
  then show ?thesis using shape_length[OF assms] by (simp add: wf_heap_iff)
qed


lemma path_weights_self [simp]: "path_weights h n n = [1]"
  by (subst path_weights.simps) simp





lemma paths_self [simp]: "paths h n n = 1"
  by (simp add: paths_def)






lemma deriv_self [simp]: "deriv h n n = 1"
  by (simp add: deriv_def)




lemma wf_operands:
  assumes "wf_heap h" "i < length h"
  shows "backward_fn (h ! i) = AddBackward s t r \<Longrightarrow> s < i \<and> t < i \<and> r = i"
    and "backward_fn (h ! i) = MulBackward s t r \<Longrightarrow> s < i \<and> t < i \<and> r = i"
proof -
  have ok: "node_ok h i" using assms by (simp add: wf_heap_iff)
  show "backward_fn (h ! i) = AddBackward s t r \<Longrightarrow> s < i \<and> t < i \<and> r = i"
    using ok by (simp add: node_ok_def)
  show "backward_fn (h ! i) = MulBackward s t r \<Longrightarrow> s < i \<and> t < i \<and> r = i"
    using ok by (simp add: node_ok_def)
qed

lemma get_grad_set_grad:
  "a < length h \<Longrightarrow> get_grad (set_grad h a g) m = (if m = a then g else get_grad h m)"
  by (simp add: get_grad_def grad_set_grad)

lemma get_val_set_grad [simp]: "get_val (set_grad h a g) m = get_val h m"
proof (cases "a < length h")
  case True
  then show ?thesis by (simp add: get_val_def set_grad_def nth_list_update)
next
  case False
  then show ?thesis by (simp add: get_val_def set_grad_def list_update_beyond)
qed

lemma backward_Noop:
  "n < length h \<Longrightarrow> backward_fn (h ! n) = Noop \<Longrightarrow> backward h n = Some h"
  by (subst backward.simps) simp

lemma backward_Add:
  assumes "n < length h" "backward_fn (h ! n) = AddBackward s t r"
    "s < length h" "t < length h" "r < length h"
  shows "backward h n =
    Option.bind
      (backward (set_grad (set_grad h s (get_grad h s + get_grad h r)) t
         (get_grad (set_grad h s (get_grad h s + get_grad h r)) t
          + get_grad (set_grad h s (get_grad h s + get_grad h r)) r)) s)
      (\<lambda>h3. backward h3 t)"
  using assms by (subst backward.simps) (simp add: Let_def)

lemma backward_Mul:
  assumes "n < length h" "backward_fn (h ! n) = MulBackward s t r"
    "s < length h" "t < length h" "r < length h"
  shows "backward h n =
    Option.bind
      (backward (set_grad (set_grad h s (get_grad h s + get_val h t * get_grad h r)) t
         (get_grad (set_grad h s (get_grad h s + get_val h t * get_grad h r)) t
          + get_val (set_grad h s (get_grad h s + get_val h t * get_grad h r)) s
            * get_grad (set_grad h s (get_grad h s + get_val h t * get_grad h r)) r)) s)
      (\<lambda>h3. backward h3 t)"
  using assms by (subst backward.simps) (simp add: Let_def)

text \<open>The two accumulating statements of a closure, for operands below the result.\<close>

lemma accumulate_grads:
  assumes "s < i" "t < i" "i < length h"
  shows "get_grad (set_grad (set_grad h s (get_grad h s + ws)) t
           (get_grad (set_grad h s (get_grad h s + ws)) t + wt)) m
         = get_grad h m + (if m = s then ws else 0) + (if m = t then wt else (0::'a::comm_monoid_add))"
  using assms by (simp add: get_grad_set_grad add.assoc)






subsection \<open>The derivative, and the stores the operators build\<close>

lemma consistent_iff: "consistent h \<longleftrightarrow> (\<forall>i<length h. node_consistent h i)"
  by (auto simp: consistent_def list_all_iff)

lemma eval_at_self [simp]: "eval_at h n x n = x"
  by (subst eval_at.simps) simp







lemma add_SomeD:
  assumes "add h a b = Some (h', r)"
  shows "h' = h @ [\<lparr>val = get_val h a + get_val h b, grad = 0, backward_fn = AddBackward a b (length h)\<rparr>]"
    and "r = length h" and "a < length h" and "b < length h"
  using assms
  by (auto simp: add_def Scalar_def set_backward_def Let_def list_update_append split: if_splits)

lemma mul_SomeD:
  assumes "mul h a b = Some (h', r)"
  shows "h' = h @ [\<lparr>val = get_val h a * get_val h b, grad = 0, backward_fn = MulBackward a b (length h)\<rparr>]"
    and "r = length h" and "a < length h" and "b < length h"
  using assms
  by (auto simp: mul_def Scalar_def set_backward_def Let_def list_update_append split: if_splits)

lemma wf_heap_snoc:
  assumes "wf_heap h"
    and "case backward_fn x of
           Noop \<Rightarrow> True
         | AddBackward s t r \<Rightarrow> s < length h \<and> t < length h \<and> r = length h
         | MulBackward s t r \<Rightarrow> s < length h \<and> t < length h \<and> r = length h"
  shows "wf_heap (h @ [x])"
proof -
  have "node_ok (h @ [x]) i" if "i < length (h @ [x])" for i
  proof (cases "i < length h")
    case True
    then have "node_ok h i" using assms(1) by (simp add: wf_heap_iff)
    then show ?thesis using True by (simp add: node_ok_def nth_append)
  next
    case False
    then have "i = length h" using that by simp
    then show ?thesis using assms(2) by (simp add: node_ok_def)
  qed
  then show ?thesis by (simp only: wf_heap_iff) blast
qed

lemma consistent_snoc:
  assumes "consistent h"
    and "case backward_fn x of
           Noop \<Rightarrow> True
         | AddBackward s t r \<Rightarrow> s < length h \<and> t < length h \<and> val x = get_val h s + get_val h t
         | MulBackward s t r \<Rightarrow> s < length h \<and> t < length h \<and> val x = get_val h s * get_val h t"
    and "wf_heap h"
  shows "consistent (h @ [x])"
proof -
  have "node_consistent (h @ [x]) i" if "i < length (h @ [x])" for i
  proof (cases "i < length h")
    case True
    have nc: "node_consistent h i" using assms(1) True by (simp add: consistent_iff)
    show ?thesis
    proof (cases "backward_fn (h ! i)")
      case Noop
      then show ?thesis using True by (simp add: node_consistent_def nth_append)
    next
      case (AddBackward s t r)
      have "s < length h \<and> t < length h"
        using wf_operands(1)[OF assms(3) True AddBackward] True by simp
      then show ?thesis using True nc AddBackward
        by (simp add: node_consistent_def nth_append get_val_def)
    next
      case (MulBackward s t r)
      have "s < length h \<and> t < length h"
        using wf_operands(2)[OF assms(3) True MulBackward] True by simp
      then show ?thesis using True nc MulBackward
        by (simp add: node_consistent_def nth_append get_val_def)
    qed
  next
    case False
    then have "i = length h" using that by simp
    then show ?thesis using assms(2)
      by (cases "backward_fn x") (simp_all add: node_consistent_def get_val_def nth_append)
  qed
  then show ?thesis by (simp only: consistent_iff) blast
qed

lemma consistent_shape:
  assumes "shape h' = shape h" "wf_heap h"
  shows "consistent h' = consistent h"
proof -
  have v: "get_val h' i = get_val h i" if "i < length h" for i
    using shape_nth(1)[OF assms(1) that] by (simp add: get_val_def)
  have "node_consistent h' i = node_consistent h i" if i: "i < length h" for i
  proof (cases "backward_fn (h ! i)")
    case Noop
    then show ?thesis using shape_nth(2)[OF assms(1) i] by (simp add: node_consistent_def)
  next
    case (AddBackward s t r)
    have "s < length h \<and> t < length h" using wf_operands(1)[OF assms(2) i AddBackward] i by simp
    then show ?thesis using shape_nth(2)[OF assms(1) i] AddBackward v i
      by (simp add: node_consistent_def)
  next
    case (MulBackward s t r)
    have "s < length h \<and> t < length h" using wf_operands(2)[OF assms(2) i MulBackward] i by simp
    then show ?thesis using shape_nth(2)[OF assms(1) i] MulBackward v i
      by (simp add: node_consistent_def)
  qed
  then show ?thesis using shape_length[OF assms(1)] by (simp add: consistent_iff)
qed

lemma built_wf_consistent: "built h \<Longrightarrow> wf_heap h \<and> consistent h"
proof (induction rule: built.induct)
  case built_empty
  show ?case by (simp add: wf_heap_def consistent_def)
next
  case (built_Scalar h v)
  then show ?case by (simp add: Scalar_def wf_heap_snoc consistent_snoc)
next
  case (built_add h a b h' r)
  note d = add_SomeD[OF built_add.hyps(2)]
  show ?case unfolding d(1) using built_add.IH d(3,4)
    by (simp add: wf_heap_snoc consistent_snoc)
next
  case (built_mul h a b h' r)
  note d = mul_SomeD[OF built_mul.hyps(2)]
  show ?case unfolding d(1) using built_mul.IH d(3,4)
    by (simp add: wf_heap_snoc consistent_snoc)
next
  case (built_set_grad h a g)
  then show ?case
    using wf_heap_shape[of "set_grad h a g" h] consistent_shape[of "set_grad h a g" h] by simp
qed

subsection \<open>One pass from a seeded root\<close>

























subsection \<open>Repeated passes\<close>

lemma backward_total_shape:
  fixes h :: "'a::{plus,times} heap"
  assumes "wf_heap h" "i < length h"
  shows "\<exists>h'. backward h i = Some h' \<and> shape h' = shape h"
  using assms
proof (induction i arbitrary: h rule: less_induct)
  case (less i)
  note wf = less.prems(1) and len = less.prems(2)
  have step: "\<exists>h'. backward h i = Some h' \<and> shape h' = shape h"
    if bw: "backward h i = Option.bind (backward h2 s) (\<lambda>h3. backward h3 t)"
      and sh: "shape h2 = shape h" and st: "s < i" "t < i"
    for h2 s t
  proof -
    have wf2: "wf_heap h2" using wf wf_heap_shape[OF sh] by simp
    have l2: "s < length h2" "t < length h2" using st len shape_length[OF sh] by simp_all
    from less.IH[OF st(1) wf2 l2(1)] obtain h3 where
      h3: "backward h2 s = Some h3" "shape h3 = shape h2" by blast
    have wf3: "wf_heap h3" using wf2 wf_heap_shape[OF h3(2)] by simp
    have l3: "t < length h3" using l2 shape_length[OF h3(2)] by simp
    from less.IH[OF st(2) wf3 l3] obtain h4 where
      h4: "backward h3 t = Some h4" "shape h4 = shape h3" by blast
    show ?thesis using bw h3 h4 sh by simp
  qed
  show ?case
  proof (cases "backward_fn (h ! i)")
    case Noop
    then show ?thesis using backward_Noop[OF len] by simp
  next
    case (AddBackward s t r)
    have o: "s < i" "t < i" "r = i" using wf_operands(1)[OF wf len AddBackward] by simp_all
    have ls: "s < length h" "t < length h" "r < length h" using o len by simp_all
    show ?thesis by (rule step[OF backward_Add[OF len AddBackward ls] _ o(1,2)]) simp
  next
    case (MulBackward s t r)
    have o: "s < i" "t < i" "r = i" using wf_operands(2)[OF wf len MulBackward] by simp_all
    have ls: "s < length h" "t < length h" "r < length h" using o len by simp_all
    show ?thesis by (rule step[OF backward_Mul[OF len MulBackward ls] _ o(1,2)]) simp
  qed
qed

lemma shape_maps: "shape h' = shape h \<longleftrightarrow> map val h' = map val h \<and> map backward_fn h' = map backward_fn h"
proof
  assume "shape h' = shape h"
  then have "map fst (shape h') = map fst (shape h)" "map snd (shape h') = map snd (shape h)"
    by simp_all
  then show "map val h' = map val h \<and> map backward_fn h' = map backward_fn h"
    by (simp add: shape_def comp_def)
next
  assume a: "map val h' = map val h \<and> map backward_fn h' = map backward_fn h"
  then have l: "length h' = length h" using map_eq_imp_length_eq by blast
  have "(val (h' ! i), backward_fn (h' ! i)) = (val (h ! i), backward_fn (h ! i))"
    if "i < length h" for i
  proof -
    have "map val h' ! i = map val h ! i" "map backward_fn h' ! i = map backward_fn h ! i"
      using a by simp_all
    then show ?thesis using that l by simp
  qed
  then show "shape h' = shape h" using l by (simp add: shape_def list_eq_iff_nth_eq)
qed

lemma backward_many_shape:
  fixes h :: "'a::{plus,times} heap"
  assumes "wf_heap h" "list_all (\<lambda>n. n < length h) ns"
  shows "\<exists>h'. backward_many h ns = Some h' \<and> shape h' = shape h"
  using assms
proof (induction ns arbitrary: h)
  case Nil
  then show ?case by simp
next
  case (Cons n ns)
  have n: "n < length h" and rest: "list_all (\<lambda>n. n < length h) ns" using Cons.prems(2) by simp_all
  from backward_total_shape[OF Cons.prems(1) n] obtain h1 where
    h1: "backward h n = Some h1" "shape h1 = shape h" by blast
  have wf1: "wf_heap h1" using Cons.prems(1) wf_heap_shape[OF h1(2)] by simp
  have r1: "list_all (\<lambda>n. n < length h1) ns" using rest shape_length[OF h1(2)] by simp
  from Cons.IH[OF wf1 r1] obtain h' where "backward_many h1 ns = Some h'" "shape h' = shape h1"
    by blast
  then show ?case using h1 by simp
qed







subsection \<open>The mean squared error\<close>



lemma foldl_add_sum_list:
  fixes a :: "'a::comm_monoid_add"
  shows "foldl (+) a xs = a + sum_list xs"
  by (induction xs arbitrary: a) (simp_all add: add.assoc)



lemma add_e_Inr:
  "a < length h \<Longrightarrow> b < length h \<Longrightarrow>
   add_e h a b = Inr (h @ [\<lparr>val = get_val h a + get_val h b, grad = 0,
                            backward_fn = AddBackward a b (length h)\<rparr>], length h)"
  by (simp add: add_e_def add_def Scalar_def set_backward_def list_update_append)




subsection \<open>Trees\<close>












section \<open>The claims\<close>

lemmas run_defs =
  Scalar_def mul_def add_def set_backward_def set_grad_def set_val_def get_grad_def get_val_def
  backward.simps Let_def nth_append









text \<open>
  C4: for \<open>x\<close> constructed with value 4, building \<open>y = ((x * x) * x) + x + x\<close>, zeroing
  \<open>x.grad\<close>, seeding \<open>y.grad = 1\<close> and calling \<open>y.backward()\<close> leaves \<open>x.grad = 50\<close>; for
  \<open>y = (x * x) * x\<close> alone, under the same protocol, \<open>x.grad = 48\<close>. The objects are
  allocated in an arbitrary store \<open>h0\<close>. All the numbers that occur are small integers,
  which the arithmetic of the program represents exactly.
\<close>

theorem cubic_examples:
  "cubic_plus_2x h0 = Some 50 \<and> cubic h0 = Some 48"
  unfolding cubic_plus_2x_def cubic_def by (simp add: run_defs)

text \<open>
  C5: for \<open>x\<close> constructed with value 5, building \<open>y = x + x\<close> (the same node as both
  operands), zeroing \<open>x.grad\<close>, seeding \<open>y.grad = 1\<close> and calling \<open>y.backward()\<close> leaves
  \<open>x.grad = 2\<close>.
\<close>

theorem additive_fan_out:
  "double_x h0 = Some 2"
  unfolding double_x_def by (simp add: run_defs)

text \<open>
  C6: the node returned by adding \<open>Scalar(p)\<close> and \<open>Scalar(q)\<close> has value \<open>p + q\<close>, the node
  returned by multiplying them has value \<open>p * q\<close>, in the arithmetic of the values, whatever
  it is; both results are fresh nodes (their address is not allocated before the
  operator runs, and the operator changes no existing object) whose gradient reads 0.
\<close>

theorem operator_values:
  fixes p q :: "'a::{zero,plus,times}"
  shows "(let (h1, a) = Scalar h0 p; (h2, b) = Scalar h1 q in
          add h2 a b = Some (h2 @ [\<lparr>val = p + q, grad = 0, backward_fn = AddBackward a b (length h2)\<rparr>], length h2)
        \<and> mul h2 a b = Some (h2 @ [\<lparr>val = p * q, grad = 0, backward_fn = MulBackward a b (length h2)\<rparr>], length h2))"
  by (simp add: Scalar_def mul_def add_def set_backward_def get_val_def Let_def nth_append list_update_append)

text \<open>
  C7: whatever nodes of a graph \<open>backward()\<close> is invoked on, and however many times, every
  invocation returns and no \<open>val\<close> field is changed (nor any \<open>backward\<close> attribute): only
  \<open>grad\<close> fields are written. This holds for any arithmetic on the values.
\<close>

theorem val_never_changes:
  fixes h :: "'a::{plus,times} heap"
  assumes "wf_heap h" "list_all (\<lambda>n. n < length h) ns"
  shows "\<exists>h'. backward_many h ns = Some h' \<and>
           map val h' = map val h \<and> map backward_fn h' = map backward_fn h"
  using backward_many_shape[OF assms] by (simp add: shape_maps)

theorem val_never_changes_witness:
  "wf_heap cubic_graph \<and> list_all (\<lambda>n. n < length cubic_graph) [2, 1, 2] \<and>
   (\<exists>h'. backward_many cubic_graph [2, 1, 2] = Some h' \<and> map val h' = [4, 16, 64])"
proof -
  have a: "wf_heap cubic_graph" by code_simp
  have b: "list_all (\<lambda>n. n < length cubic_graph) [2, 1, 2]" by code_simp
  have v: "map val cubic_graph = [4, 16, 64]" by code_simp
  show ?thesis using val_never_changes[OF a b] a b v by auto
qed









end
